theory Spec2Isabelle
  imports Complex_Main "HOL-Library.Word"
begin

unbundle bit_operations_syntax

section \<open>Platform values\<close>

text \<open>
  The client is a browser program. Its numbers are IEEE doubles and the samples it
  handles are 32-bit floats. A finite number is modelled as the \<open>real\<close> it denotes;
  NaN and the infinities are outside the model. The sample conversions multiply and
  divide by the power of two 32768, which is exact. The playback times are quotients
  and sums of doubles, which the machine rounds: there the result is passed through
  \<open>to_double\<close>, defined below. A typed-array element of \<open>Int16Array\<close> is a
  \<open>16 word\<close> read with \<open>sint\<close>, a byte of \<open>Uint8Array\<close> an \<open>8 word\<close>.
\<close>

type_synonym byte = "8 word"
type_synonym int16 = "16 word"

text \<open>Errors raised by the platform or by the remote API, as values.\<close>

datatype js_error =
    InvalidStateError
  | RangeError
  | NotSupportedError
  | InvalidCharacterError
  | NotAllowedError
  | TypeError
  | SyntaxError
  | TransportError

section \<open>Double-precision arithmetic\<close>

text \<open>
  Rounding to the nearest double, ties to the even significand. A double other than 0 is
  an integer of at most 53 bits times a power of two; between \<open>2 ^ e\<close> and
  \<open>2 ^ (e + 1)\<close> the doubles are the multiples of \<open>2 ^ (e - 52)\<close>. The exponent is
  found by halving or doubling the number until it lies between 1 and 2. The exponent
  range of the format is not modelled (no underflow to subnormal numbers, no overflow):
  times in seconds stay far inside it.
\<close>

definition rne :: "real \<Rightarrow> int" where
  "rne q =
     (let f = \<lfloor>q\<rfloor>; r = q - of_int f
      in if r < 1 / 2 then f
         else if 1 / 2 < r then f + 1
         else if even f then f else f + 1)"

function halvings :: "real \<Rightarrow> nat" where
  "halvings x = (if 2 \<le> x then Suc (halvings (x / 2)) else 0)"
  by pat_completeness auto
termination
proof (relation "measure (\<lambda>x. nat \<lfloor>x\<rfloor>)")
  show "wf (measure (\<lambda>x::real. nat \<lfloor>x\<rfloor>))" by simp
next
  fix x :: real
  assume "2 \<le> x"
  then have "x / 2 \<le> x - 1" by simp
  then have "\<lfloor>x / 2\<rfloor> \<le> \<lfloor>x - 1\<rfloor>" by (rule floor_mono)
  moreover from \<open>2 \<le> x\<close> have "1 \<le> \<lfloor>x\<rfloor>" by (simp add: le_floor_iff)
  ultimately show "(x / 2, x) \<in> measure (\<lambda>x. nat \<lfloor>x\<rfloor>)" by simp
qed

function doublings :: "real \<Rightarrow> nat" where
  "doublings x = (if 0 < x \<and> x < 1 then Suc (doublings (2 * x)) else 0)"
  by pat_completeness auto
termination
proof (relation "measure (\<lambda>x. nat \<lfloor>1 / x\<rfloor>)")
  show "wf (measure (\<lambda>x::real. nat \<lfloor>1 / x\<rfloor>))" by simp
next
  fix x :: real
  assume a: "0 < x \<and> x < 1"
  define y where "y = 1 / x"
  from a have y: "1 < y" by (simp add: y_def)
  have "\<lfloor>y / 2\<rfloor> + 1 \<le> \<lfloor>y\<rfloor>"
  proof (cases "2 \<le> y")
    case True
    then have "y / 2 + 1 \<le> y" by simp
    then have "\<lfloor>y / 2 + 1\<rfloor> \<le> \<lfloor>y\<rfloor>" by (rule floor_mono)
    then show ?thesis by simp
  next
    case False
    with y have "0 \<le> y / 2" "y / 2 < 1" by simp_all
    then have "\<lfloor>y / 2\<rfloor> = 0" by (simp add: floor_eq_iff)
    moreover from y have "1 \<le> \<lfloor>y\<rfloor>" by (simp add: le_floor_iff)
    ultimately show ?thesis by simp
  qed
  moreover from y have "0 \<le> \<lfloor>y\<rfloor>" by (simp add: le_floor_iff)
  ultimately have "nat \<lfloor>y / 2\<rfloor> < nat \<lfloor>y\<rfloor>" by linarith
  moreover have "1 / (2 * x) = y / 2" by (simp add: y_def)
  ultimately have "nat \<lfloor>1 / (2 * x)\<rfloor> < nat \<lfloor>1 / x\<rfloor>"
    by (simp only: y_def)
  then show "(2 * x, x) \<in> measure (\<lambda>x. nat \<lfloor>1 / x\<rfloor>)"
    by (simp only: in_measure)
qed

declare halvings.simps [simp del]

declare doublings.simps [simp del]

definition binade :: "real \<Rightarrow> int" where
  "binade x = (if 1 \<le> x then int (halvings x) else - int (doublings x))"

definition ulp :: "real \<Rightarrow> real" where
  "ulp x = 2 powi (binade x - 52)"

definition to_double :: "real \<Rightarrow> real" where
  "to_double x =
     (if x = 0 then 0
      else sgn x * real_of_int (rne (\<bar>x\<bar> / ulp \<bar>x\<bar>)) * ulp \<bar>x\<bar>)"

section \<open>Audio helpers (App.tsx, lines 39 to 67)\<close>

text \<open>
  \<open>decode\<close>: \<open>atob\<close> gives a binary string, whose character codes are copied into a
  fresh \<open>Uint8Array\<close>. \<open>atob\<close> is the platform's; it is a parameter here, returning the
  character codes or \<open>InvalidCharacterError\<close>.
\<close>

definition decode :: "(string \<Rightarrow> js_error + nat list) \<Rightarrow> string \<Rightarrow> js_error + byte list" where
  "decode atob base64 =
     (case atob base64 of
        Inl e \<Rightarrow> Inl e
      | Inr binary \<Rightarrow> Inr (map (\<lambda>c. (word_of_nat c :: byte)) binary))"

text \<open>\<open>encode\<close>: the bytes become character codes, handed to the platform's \<open>btoa\<close>.\<close>

definition encode :: "(nat list \<Rightarrow> string) \<Rightarrow> byte list \<Rightarrow> string" where
  "encode btoa bytes = btoa (map unat bytes)"

text \<open>
  Storing a number into an \<open>Int16Array\<close> element applies the language's \<open>ToInt16\<close>:
  the fraction is dropped (towards zero) and the integer is taken modulo \<open>2 ^ 16\<close>
  into the signed range. There is no rounding and no saturation.
\<close>

definition js_trunc :: "real \<Rightarrow> int" where
  "js_trunc x = (if x < 0 then \<lceil>x\<rceil> else \<lfloor>x\<rfloor>)"

definition ToInt16 :: "real \<Rightarrow> int16" where
  "ToInt16 x = word_of_int (js_trunc x)"

text \<open>
  \<open>new Uint8Array(int16.buffer)\<close> and \<open>new Int16Array(data.buffer)\<close> view the same
  memory in the byte order of the machine, little-endian on every platform browsers
  run on. The second raises \<open>RangeError\<close> when the byte length is odd.
\<close>

fun bytes_of_int16s :: "int16 list \<Rightarrow> byte list" where
  "bytes_of_int16s [] = []"
| "bytes_of_int16s (w # ws) =
     (ucast w :: byte) # (ucast (drop_bit 8 w) :: byte) # bytes_of_int16s ws"

fun int16s_of_bytes :: "byte list \<Rightarrow> js_error + int16 list" where
  "int16s_of_bytes [] = Inr []"
| "int16s_of_bytes [b] = Inl RangeError"
| "int16s_of_bytes (lo # hi # bs) =
     (case int16s_of_bytes bs of
        Inl e \<Rightarrow> Inl e
      | Inr ws \<Rightarrow> Inr ((ucast lo OR push_bit 8 (ucast hi) :: int16) # ws))"

text \<open>
  \<open>createBlob\<close>: the loop \<open>int16[i] = data[i] * 32768\<close>, then the bytes of the array,
  base64-encoded, with the fixed MIME descriptor.
\<close>

definition pcm16 :: "real list \<Rightarrow> int16 list" where
  "pcm16 data = map (\<lambda>s. ToInt16 (s * 32768)) data"

record blob =
  blob_data :: string
  mimeType :: string

definition createBlob :: "(nat list \<Rightarrow> string) \<Rightarrow> real list \<Rightarrow> blob" where
  "createBlob btoa data =
     \<lparr> blob_data = encode btoa (bytes_of_int16s (pcm16 data)),
       mimeType = ''audio/pcm;rate=16000'' \<rparr>"

text \<open>
  \<open>decodeAudioData\<close>: the bytes are viewed as 16-bit samples, a buffer of
  \<open>frameCount\<close> frames is created (the platform refuses a buffer of no frames or of
  no channels with \<open>NotSupportedError\<close>; a fractional frame count is truncated by the
  interface), and sample \<open>i\<close> of channel \<open>c\<close> is the interleaved sample
  \<open>i * numChannels + c\<close> divided by 32768.
\<close>

record audio_buffer =
  channels :: "real list list"
  buf_length :: nat
  buf_sampleRate :: nat

text \<open>\<open>buf.duration\<close>: the length in frames over the sample rate, as a double.\<close>

definition duration :: "audio_buffer \<Rightarrow> real" where
  "duration b = to_double (real (buf_length b) / real (buf_sampleRate b))"

definition decodeAudioData :: "byte list \<Rightarrow> nat \<Rightarrow> nat \<Rightarrow> js_error + audio_buffer" where
  "decodeAudioData data sampleRate numChannels =
     (case int16s_of_bytes data of
        Inl e \<Rightarrow> Inl e
      | Inr dataInt16 \<Rightarrow>
          (let frameCount = length dataInt16 div numChannels in
           if numChannels = 0 \<or> frameCount = 0 then Inl NotSupportedError
           else Inr \<lparr> channels =
                        map (\<lambda>channel.
                               map (\<lambda>i. real_of_int (sint (dataInt16 ! (i * numChannels + channel))) / 32768)
                                 [0 ..< frameCount])
                          [0 ..< numChannels],
                      buf_length = frameCount,
                      buf_sampleRate = sampleRate \<rparr>))"

text \<open>
  The specification's wording of the capture-side conversion, for comparison with
  \<open>pcm16\<close>: round to nearest, then clamp to the signed 16-bit range.
\<close>

definition spec_pcm16_sample :: "real \<Rightarrow> int" where
  "spec_pcm16_sample s = max (- 32768) (min 32767 (round (s * 32768)))"


section \<open>The application state (App.tsx, lines 70 to 96)\<close>

text \<open>
  The component's React state and its refs, gathered in one record that the handlers
  take and return. Two more fields record what leaves the component: \<open>effects\<close>, the
  calls made on the platform and on the remote API, in order, and \<open>unhandled\<close>, the
  rejections of promises that nothing awaits or catches (the platform reports each as an
  error).
\<close>

datatype LearningMode = CHAT | CORRECT | TRANSLATE | HINDI_ENGLISH | IELTS | PRONUNCIATION | EXAM | COURSE

datatype TutorId = khalid | umar | gazala

fun voice :: "TutorId \<Rightarrow> string" where
  "voice khalid = ''Fenrir''"
| "voice umar = ''Puck''"
| "voice gazala = ''Kore''"

datatype role = user | model

record message =
  msg_role :: role
  msg_text :: string
  msg_timestamp :: string

record HistoryItem =
  h_mode :: LearningMode
  h_score :: "real option"
  h_timestamp :: string
  synced :: bool

record UserProgress =
  totalAttempts :: nat
  currentDay :: nat
  scores :: "real list"
  history :: "HistoryItem list"

text \<open>
  An \<open>AudioContext\<close>. Its \<open>close()\<close> returns a promise; on a context that is already
  closed the promise is rejected with \<open>InvalidStateError\<close> (Web Audio API, the
  \<open>close\<close> method of \<open>AudioContext\<close>), and nothing is thrown at the call.
\<close>

record audio_context =
  ctx_sampleRate :: nat
  ctx_closed :: bool

definition AudioContext_close :: "audio_context \<Rightarrow> audio_context \<times> js_error option" where
  "AudioContext_close c =
     (if ctx_closed c then (c, Some InvalidStateError)
      else (c\<lparr>ctx_closed := True\<rparr>, None))"

text \<open>An \<open>AudioBufferSourceNode\<close> that has been started; \<open>src_id\<close> is its identity.\<close>

record source_node =
  src_id :: nat
  src_start :: real
  src_buffer :: audio_buffer

type_synonym session = nat

record transcription =
  tr_input :: string
  tr_output :: string

datatype effect =
    GetUserMedia
  | Connect TutorId
  | CaptureAttached
  | SendRealtimeInput blob
  | SessionClose session
  | SourceStart nat real real
  | SourceStop nat
  | ContextClose nat
  | Alert string

record app_state =
  messages :: "message list"
  loading :: bool
  isLive :: bool
  showGuide :: bool
  progress :: UserProgress
  selectedTutor :: TutorId
  audioContextInRef :: "audio_context option"
  audioContextOutRef :: "audio_context option"
  nextStartTimeRef :: real
  activeSourcesRef :: "source_node list"
  liveSessionRef :: "session option"
  currentTranscriptionRef :: transcription
  nodesCreated :: nat
  effects :: "effect list"
  unhandled :: "js_error list"

text \<open>The values of \<open>useState\<close> and \<open>useRef\<close> at the first render.\<close>

definition initial_progress :: UserProgress where
  "initial_progress = \<lparr> totalAttempts = 0, currentDay = 1, scores = [], history = [] \<rparr>"

definition initial_state :: app_state where
  "initial_state =
     \<lparr> messages = [], loading = False, isLive = False, showGuide = False,
       progress = initial_progress, selectedTutor = khalid,
       audioContextInRef = None, audioContextOutRef = None,
       nextStartTimeRef = 0, activeSourcesRef = [], liveSessionRef = None,
       currentTranscriptionRef = \<lparr> tr_input = [], tr_output = [] \<rparr>,
       nodesCreated = 0, effects = [], unhandled = [] \<rparr>"

definition unsyncedCount :: "app_state \<Rightarrow> nat" where
  "unsyncedCount s = length (filter (\<lambda>h. \<not> synced h) (history (progress s)))"

section \<open>Loading the persisted progress (App.tsx, lines 98 to 108)\<close>

text \<open>
  The stored blob after \<open>JSON.parse\<close>: the fields the program writes, where \<open>history\<close>
  and each item's \<open>synced\<close> may be missing (data written by an earlier version).
  \<open>JSON.parse\<close> is the platform's and is a parameter.
\<close>

record stored_item =
  st_mode :: LearningMode
  st_score :: "real option"
  st_timestamp :: string
  st_synced :: "bool option"

record stored_progress =
  st_totalAttempts :: nat
  st_currentDay :: nat
  st_scores :: "real list"
  st_history :: "stored_item list option"

text \<open>\<open>{ ...h, synced: h.synced ?? true }\<close>\<close>

definition with_synced :: "stored_item \<Rightarrow> HistoryItem" where
  "with_synced h =
     \<lparr> h_mode = st_mode h, h_score = st_score h, h_timestamp = st_timestamp h,
       synced = (case st_synced h of None \<Rightarrow> True | Some b \<Rightarrow> b) \<rparr>"

text \<open>
  The effect that runs once after the first render. \<open>saved\<close> is what
  \<open>localStorage.getItem\<close> returned: \<open>None\<close> for a missing key. An empty string is
  falsy and takes the first-run branch too. A failing \<open>JSON.parse\<close> throws out of the
  effect. A blob without \<open>history\<close> is stored as it is and the render that follows
  fails on \<open>progress.history.filter\<close>; that is the \<open>TypeError\<close> here.
\<close>

definition load_progress ::
  "(string \<Rightarrow> js_error + stored_progress) \<Rightarrow> string option \<Rightarrow> app_state \<Rightarrow> js_error + app_state" where
  "load_progress JSON_parse saved s =
     (case saved of
        None \<Rightarrow> Inr (s\<lparr>showGuide := True\<rparr>)
      | Some txt \<Rightarrow>
          if txt = [] then Inr (s\<lparr>showGuide := True\<rparr>)
          else
            (case JSON_parse txt of
               Inl e \<Rightarrow> Inl e
             | Inr parsed \<Rightarrow>
                 (case st_history parsed of
                    None \<Rightarrow> Inl TypeError
                  | Some hs \<Rightarrow>
                      Inr (s\<lparr>progress :=
                              \<lparr> totalAttempts = st_totalAttempts parsed,
                                currentDay = st_currentDay parsed,
                                scores = st_scores parsed,
                                history = map with_synced hs \<rparr>\<rparr>))))"


section \<open>The live session (App.tsx, lines 129 to 189)\<close>

subsection \<open>Teardown\<close>

text \<open>
  \<open>if (ref.current) ref.current.close()\<close> for one of the two context refs. The ref
  keeps pointing at the context afterwards: it is never reset. The promise that
  \<open>close()\<close> returns is dropped, so a rejection is unhandled.
\<close>

definition close_if_present ::
  "audio_context option \<Rightarrow> audio_context option \<times> effect list \<times> js_error list" where
  "close_if_present r =
     (case r of
        None \<Rightarrow> (None, [], [])
      | Some c \<Rightarrow>
          (let (c', rejected) = AudioContext_close c in
           (Some c', [ContextClose (ctx_sampleRate c)],
            (case rejected of None \<Rightarrow> [] | Some e \<Rightarrow> [e]))))"

definition stopLiveSession :: "app_state \<Rightarrow> app_state" where
  "stopLiveSession s =
     (let s1 = (case liveSessionRef s of
                  None \<Rightarrow> s
                | Some sess \<Rightarrow>
                    s\<lparr>liveSessionRef := None, effects := effects s @ [SessionClose sess]\<rparr>);
          s2 = s1\<lparr>effects := effects s1 @ map (\<lambda>n. SourceStop (src_id n)) (activeSourcesRef s1)\<rparr>;
          s3 = s2\<lparr>activeSourcesRef := []\<rparr>;
          s4 = s3\<lparr>isLive := False\<rparr>;
          (cin, ein, rin) = close_if_present (audioContextInRef s4);
          s5 = s4\<lparr>audioContextInRef := cin, effects := effects s4 @ ein,
                  unhandled := unhandled s4 @ rin\<rparr>;
          (cout, eout, rout) = close_if_present (audioContextOutRef s5)
      in s5\<lparr>audioContextOutRef := cout, effects := effects s5 @ eout,
             unhandled := unhandled s5 @ rout\<rparr>)"

subsection \<open>Starting a session\<close>

text \<open>
  \<open>startLiveSession\<close>, up to the point where its last \<open>await\<close> returns. The two
  awaited results are parameters: \<open>media\<close> for \<open>getUserMedia\<close> (an error when the
  permission is denied) and \<open>conn\<close> for \<open>ai.live.connect\<close>. Either failure lands
  in the one \<open>catch\<close>, which clears \<open>loading\<close> and raises the alert.
\<close>

definition start_failed :: "app_state \<Rightarrow> app_state" where
  "start_failed s =
     s\<lparr>loading := False,
       effects := effects s @ [Alert ''Microphone access is required for voice sessions.'']\<rparr>"

definition startLiveSession ::
  "(js_error + unit) \<Rightarrow> (js_error + session) \<Rightarrow> app_state \<Rightarrow> app_state" where
  "startLiveSession media conn s =
     (let s1 = s\<lparr>loading := True, effects := effects s @ [GetUserMedia]\<rparr> in
      case media of
        Inl err \<Rightarrow> start_failed s1
      | Inr stream \<Rightarrow>
          (let s2 = s1\<lparr>audioContextInRef := Some \<lparr> ctx_sampleRate = 16000, ctx_closed = False \<rparr>,
                       audioContextOutRef := Some \<lparr> ctx_sampleRate = 24000, ctx_closed = False \<rparr>,
                       nextStartTimeRef := 0,
                       effects := effects s1 @ [Connect (selectedTutor s1)]\<rparr> in
           case conn of
             Inl err \<Rightarrow> start_failed s2
           | Inr sess \<Rightarrow> s2\<lparr>liveSessionRef := Some sess\<rparr>))"

subsection \<open>Callbacks of the connection\<close>

text \<open>\<open>onopen\<close> attaches the capture pipeline and marks the session live.\<close>

definition onopen :: "app_state \<Rightarrow> app_state" where
  "onopen s = s\<lparr>isLive := True, loading := False, effects := effects s @ [CaptureAttached]\<rparr>"

text \<open>\<open>onaudioprocess\<close>: each captured frame is converted and sent.\<close>

definition onaudioprocess :: "(nat list \<Rightarrow> string) \<Rightarrow> real list \<Rightarrow> app_state \<Rightarrow> app_state" where
  "onaudioprocess btoa inputData s =
     s\<lparr>effects := effects s @ [SendRealtimeInput (createBlob btoa inputData)]\<rparr>"

text \<open>
  An inbound message. A transcription object may lack its \<open>text\<close>; a model turn may
  lack its \<open>parts\<close>; a part may lack inline data.
\<close>

record server_content =
  inputTranscription :: "string option option"
  outputTranscription :: "string option option"
  turnComplete :: bool
  modelTurn :: "string option list option option"

type_synonym live_message = "server_content option"

text \<open>\<open>+=\<close> on a string: an undefined right-hand side is appended as its name.\<close>

definition js_string :: "string option \<Rightarrow> string" where
  "js_string t = (case t of None \<Rightarrow> ''undefined'' | Some x \<Rightarrow> x)"

definition append_input :: "live_message \<Rightarrow> transcription \<Rightarrow> transcription" where
  "append_input m t =
     (case m of
        None \<Rightarrow> t
      | Some c \<Rightarrow>
          (case inputTranscription c of
             None \<Rightarrow> t
           | Some d \<Rightarrow> t\<lparr>tr_input := tr_input t @ js_string d\<rparr>))"

definition append_output :: "live_message \<Rightarrow> transcription \<Rightarrow> transcription" where
  "append_output m t =
     (case m of
        None \<Rightarrow> t
      | Some c \<Rightarrow>
          (case outputTranscription c of
             None \<Rightarrow> t
           | Some d \<Rightarrow> t\<lparr>tr_output := tr_output t @ js_string d\<rparr>))"

definition is_turnComplete :: "live_message \<Rightarrow> bool" where
  "is_turnComplete m = (case m of None \<Rightarrow> False | Some c \<Rightarrow> turnComplete c)"

text \<open>
  The turn-complete branch (lines 163 to 167). \<open>now\<close> holds the two readings of the
  wall clock, already formatted.
\<close>

definition flush_turn :: "string \<times> string \<Rightarrow> app_state \<Rightarrow> app_state" where
  "flush_turn now s =
     (let inp = tr_input (currentTranscriptionRef s);
          outp = tr_output (currentTranscriptionRef s);
          s1 = (if inp \<noteq> [] \<or> outp \<noteq> [] then
                  s\<lparr>messages := messages s @
                      [\<lparr> msg_role = user, msg_text = inp, msg_timestamp = fst now \<rparr>,
                       \<lparr> msg_role = model, msg_text = outp, msg_timestamp = snd now \<rparr>]\<rparr>
                else s)
      in s1\<lparr>currentTranscriptionRef := \<lparr> tr_input = [], tr_output = [] \<rparr>\<rparr>)"

text \<open>
  \<open>message.serverContent?.modelTurn?.parts[0]?.inlineData?.data\<close>: only \<open>parts\<close> is
  read without a guard.
\<close>

definition inline_audio :: "live_message \<Rightarrow> js_error + string option" where
  "inline_audio m =
     (case m of
        None \<Rightarrow> Inr None
      | Some c \<Rightarrow>
          (case modelTurn c of
             None \<Rightarrow> Inr None
           | Some None \<Rightarrow> Inl TypeError
           | Some (Some []) \<Rightarrow> Inr None
           | Some (Some (p # ps)) \<Rightarrow> Inr p))"

text \<open>
  Lines 171 to 174: the decoded buffer gets a source node, which is started at the
  later of the cursor and the output clock (\<open>Math.max\<close> is exact); then
  \<open>nextStartTimeRef.current += buf.duration\<close> adds the duration to the cursor, a
  sum of doubles, rounded.
\<close>

definition enqueue :: "real \<Rightarrow> audio_buffer \<Rightarrow> app_state \<Rightarrow> app_state" where
  "enqueue currentTime buf s =
     (let start = max (nextStartTimeRef s) currentTime;
          src = \<lparr> src_id = nodesCreated s, src_start = start, src_buffer = buf \<rparr>
      in s\<lparr>nextStartTimeRef := to_double (start + duration buf),
           activeSourcesRef := activeSourcesRef s @ [src],
           nodesCreated := nodesCreated s + 1,
           effects := effects s @ [SourceStart (nodesCreated s) start (duration buf)]\<rparr>)"

definition onended :: "nat \<Rightarrow> app_state \<Rightarrow> app_state" where
  "onended n s = s\<lparr>activeSourcesRef := filter (\<lambda>x. src_id x \<noteq> n) (activeSourcesRef s)\<rparr>"

definition rejected :: "js_error \<Rightarrow> app_state \<Rightarrow> app_state" where
  "rejected e s = s\<lparr>unhandled := unhandled s @ [e]\<rparr>"

text \<open>Lines 161 to 167: the transcript part of a message.\<close>

definition transcribe :: "string \<times> string \<Rightarrow> live_message \<Rightarrow> app_state \<Rightarrow> app_state" where
  "transcribe now m s =
     (let s1 = s\<lparr>currentTranscriptionRef := append_input m (currentTranscriptionRef s)\<rparr>;
          s2 = s1\<lparr>currentTranscriptionRef := append_output m (currentTranscriptionRef s1)\<rparr>
      in if is_turnComplete m then flush_turn now s2 else s2)"

text \<open>
  \<open>onmessage\<close>. It is an \<open>async\<close> function that nothing awaits: an exception inside
  it is an unhandled rejection, after the changes made before it. \<open>currentTime\<close> is the
  reading of the output context's clock when the buffer is scheduled.
\<close>

definition onmessage ::
  "(string \<Rightarrow> js_error + nat list) \<Rightarrow> string \<times> string \<Rightarrow> real \<Rightarrow> live_message \<Rightarrow> app_state \<Rightarrow> app_state" where
  "onmessage atob now currentTime m s =
     (let s3 = transcribe now m s
      in case inline_audio m of
           Inl e \<Rightarrow> rejected e s3
         | Inr None \<Rightarrow> s3
         | Inr (Some b64) \<Rightarrow>
             if b64 = [] then s3
             else
               (case decode atob b64 of
                  Inl e \<Rightarrow> rejected e s3
                | Inr bytes \<Rightarrow>
                    (case decodeAudioData bytes 24000 1 of
                       Inl e \<Rightarrow> rejected e s3
                     | Inr buf \<Rightarrow> enqueue currentTime buf s3)))"

definition onerror :: "app_state \<Rightarrow> app_state" where
  "onerror s = stopLiveSession s"

definition onclose :: "app_state \<Rightarrow> app_state" where
  "onclose s = stopLiveSession s"


subsection \<open>Sequences of inbound messages\<close>

text \<open>
  The callback run over the messages of a stream in arrival order, each with the two
  readings of the wall clock and the reading of the output clock taken while it is
  handled; and the chunks the platform was asked to play: the \<open>start\<close> calls among
  the effects, as pairs of start time and duration.
\<close>

fun onmessages ::
  "(string \<Rightarrow> js_error + nat list) \<Rightarrow> ((string \<times> string) \<times> real \<times> live_message) list \<Rightarrow>
     app_state \<Rightarrow> app_state" where
  "onmessages atob [] s = s"
| "onmessages atob ((now, currentTime, m) # ms) s =
     onmessages atob ms (onmessage atob now currentTime m s)"

fun scheduled :: "effect list \<Rightarrow> (real \<times> real) list" where
  "scheduled [] = []"
| "scheduled (SourceStart n start d # es) = (start, d) # scheduled es"
| "scheduled (e # es) = scheduled es"

text \<open>
  Consecutive chunks do not overlap, in the arithmetic of the code: each chunk starts
  no earlier than the sum, as a double, of the start and the duration of the chunk
  before it.
\<close>

fun no_overlap :: "(real \<times> real) list \<Rightarrow> bool" where
  "no_overlap [] = True"
| "no_overlap [c] = True"
| "no_overlap (c # c' # cs) = (to_double (fst c + snd c) \<le> fst c' \<and> no_overlap (c' # cs))"

text \<open>
  The specification's wording of the same, for comparison with \<open>no_overlap\<close>: each
  chunk starts no earlier than the start of the chunk before it plus that chunk's
  duration, the sum taken exactly.
\<close>

fun spec_no_overlap :: "(real \<times> real) list \<Rightarrow> bool" where
  "spec_no_overlap [] = True"
| "spec_no_overlap [c] = True"
| "spec_no_overlap (c # c' # cs) = (fst c + snd c \<le> fst c' \<and> spec_no_overlap (c' # cs))"

subsection \<open>Observations on a state\<close>

text \<open>
  A context ref holds an endpoint that is still allocated when it points at a context
  that has not been closed. A state is idle when the session is not live, no
  connection handle is held and no endpoint is allocated.
\<close>

definition allocated :: "audio_context option \<Rightarrow> bool" where
  "allocated r = (case r of None \<Rightarrow> False | Some c \<Rightarrow> \<not> ctx_closed c)"

definition idle :: "app_state \<Rightarrow> bool" where
  "idle s =
     (\<not> isLive s \<and> liveSessionRef s = None \<and>
      \<not> allocated (audioContextInRef s) \<and> \<not> allocated (audioContextOutRef s))"

text \<open>The effects a state \<open>s'\<close> has beyond those of an earlier state \<open>s\<close>.\<close>

definition new_effects :: "app_state \<Rightarrow> app_state \<Rightarrow> effect list" where
  "new_effects s s' = drop (length (effects s)) (effects s')"

text \<open>
  The scheduler's invariant, on the chunks scheduled since an earlier state \<open>s0\<close>:
  the cursor holds a double, consecutive chunks do not overlap, and every one of them
  ends (start plus duration, as a double) at or before the cursor.
\<close>

definition gapless_since :: "app_state \<Rightarrow> app_state \<Rightarrow> bool" where
  "gapless_since s0 s =
     (length (effects s0) \<le> length (effects s) \<and>
      to_double (nextStartTimeRef s) = nextStartTimeRef s \<and>
      no_overlap (scheduled (new_effects s0 s)) \<and>
      list_all (\<lambda>c. to_double (fst c + snd c) \<le> nextStartTimeRef s)
        (scheduled (new_effects s0 s)))"

fun is_teardown :: "effect \<Rightarrow> bool" where
  "is_teardown (SessionClose x) = True"
| "is_teardown (SourceStop n) = True"
| "is_teardown (ContextClose r) = True"
| "is_teardown e = False"

section \<open>One-shot requests (geminiService.ts)\<close>

text \<open>
  The values \<open>JSON.parse\<close> produces, and \<open>try { ... } catch (error) { ... }\<close> on
  results.
\<close>

datatype json =
    JNull
  | JBool bool
  | JNumber real
  | JString string
  | JArray "json list"
  | JObject "(string \<times> json) list"

definition try_catch :: "(js_error + 'a) \<Rightarrow> (js_error \<Rightarrow> js_error + 'a) \<Rightarrow> js_error + 'a" where
  "try_catch body handler = (case body of Inl e \<Rightarrow> handler e | Inr v \<Rightarrow> Inr v)"

record gen_request =
  req_model :: string
  req_contents :: string
  req_responseMimeType :: string

definition pronunciation_request :: "string \<Rightarrow> gen_request" where
  "pronunciation_request text =
     \<lparr> req_model = ''gemini-3-flash-preview'',
       req_contents =
         ''Evaluate the English pronunciation clarity for this text (simulation): '' @
         [CHR 0x22] @ text @ [CHR 0x22] @
         ''. Provide a score from 1 to 10 and 2 bullet points for improvement.'',
       req_responseMimeType = ''application/json'' \<rparr>"

definition pronunciation_fallback :: json where
  "pronunciation_fallback =
     JObject [(''score'', JNumber 0),
              (''feedback'', JArray [JString ''Unable to analyze at this moment.''])]"

text \<open>
  \<open>getPronunciationScore\<close>. The request (\<open>generateContent\<close>, which gives the text of
  the response, possibly undefined, or fails) and \<open>JSON.parse\<close> are parameters. Both
  run inside the \<open>try\<close>.
\<close>

definition getPronunciationScore ::
  "(gen_request \<Rightarrow> js_error + string option) \<Rightarrow> (string \<Rightarrow> js_error + json) \<Rightarrow> string \<Rightarrow> js_error + json" where
  "getPronunciationScore generateContent JSON_parse text =
     try_catch
       (case generateContent (pronunciation_request text) of
          Inl e \<Rightarrow> Inl e
        | Inr response_text \<Rightarrow> JSON_parse (js_string response_text))
       (\<lambda>error. Inr pronunciation_fallback)"


section \<open>Sample conversion\<close>

lemma js_trunc_mono: "x \<le> y \<Longrightarrow> js_trunc x \<le> js_trunc y"
proof -
  assume xy: "x \<le> y"
  consider "y < 0" | "x < 0" "0 \<le> y" | "0 \<le> x" by linarith
  then show ?thesis
  proof cases
    case 1
    with xy show ?thesis by (simp add: js_trunc_def ceiling_mono)
  next
    case 2
    then have "\<lceil>x\<rceil> \<le> 0" and "0 \<le> \<lfloor>y\<rfloor>" by (simp_all add: ceiling_le_iff)
    then have "\<lceil>x\<rceil> \<le> \<lfloor>y\<rfloor>" by (rule order_trans)
    with 2 show ?thesis by (simp add: js_trunc_def)
  next
    case 3
    with xy show ?thesis by (simp add: js_trunc_def floor_mono)
  qed
qed

lemma js_trunc_scaled_range:
  assumes "- 1 \<le> s" "s < 1"
  shows "- 32768 \<le> js_trunc (s * 32768)" and "js_trunc (s * 32768) \<le> 32767"
proof -
  from assms have lo: "- 32768 \<le> s * 32768" and hi: "s * 32768 < 32768" by simp_all
  show "- 32768 \<le> js_trunc (s * 32768)"
    using lo unfolding js_trunc_def by (auto simp: le_ceiling_iff le_floor_iff)
  show "js_trunc (s * 32768) \<le> 32767"
    using hi unfolding js_trunc_def by (auto simp: ceiling_le_iff floor_le_iff)
qed

lemma sint_ToInt16:
  assumes "- 32768 \<le> js_trunc x" "js_trunc x \<le> 32767"
  shows "sint (ToInt16 x) = js_trunc x"
  unfolding ToInt16_def using assms
  by (simp add: sint_sbintrunc' signed_take_bit_int_eq_self)

text \<open>The two typed-array views of one buffer agree.\<close>

lemma int16_bytes:
  "(ucast (ucast w :: byte) OR push_bit 8 (ucast (ucast (drop_bit 8 w) :: byte)) :: int16) = w"
  by (rule bit_word_eqI) (auto simp add: bit_simps)

lemma int16s_of_bytes_inverse: "int16s_of_bytes (bytes_of_int16s ws) = Inr ws"
  by (induction ws) (simp_all add: int16_bytes)


lemma pcm16_mono:
  assumes "- 1 \<le> s1" "s1 \<le> s2" "s2 < 1"
  shows "sint (ToInt16 (s1 * 32768)) \<le> sint (ToInt16 (s2 * 32768))"
proof -
  from assms have r1: "- 1 \<le> s1" "s1 < 1" and r2: "- 1 \<le> s2" "s2 < 1" by simp_all
  have "sint (ToInt16 (s1 * 32768)) = js_trunc (s1 * 32768)"
    using js_trunc_scaled_range [OF r1] by (rule sint_ToInt16)
  moreover have "sint (ToInt16 (s2 * 32768)) = js_trunc (s2 * 32768)"
    using js_trunc_scaled_range [OF r2] by (rule sint_ToInt16)
  moreover have "js_trunc (s1 * 32768) \<le> js_trunc (s2 * 32768)"
    using assms(2) by (intro js_trunc_mono) simp
  ultimately show ?thesis by simp
qed

text \<open>
  Claim C2, as the code has it. For every sample \<open>s\<close> of the captured frame with
  \<open>-1 \<le> s < 1\<close>, \<open>createBlob\<close> stores the integer part of \<open>s * 32768\<close> (the
  fraction is dropped towards zero, not rounded), and that value lies in the signed
  16-bit range; the blob carries the bytes of exactly these samples.
\<close>

theorem createBlob_sample_truncated:
  assumes "i < length data" and "- 1 \<le> data ! i" and "data ! i < 1"
  shows "blob_data (createBlob btoa data) = encode btoa (bytes_of_int16s (pcm16 data)) \<and>
         int16s_of_bytes (bytes_of_int16s (pcm16 data)) = Inr (pcm16 data) \<and>
         sint (pcm16 data ! i) = js_trunc (data ! i * 32768) \<and>
         - 32768 \<le> sint (pcm16 data ! i) \<and> sint (pcm16 data ! i) \<le> 32767"
proof -
  have v: "sint (pcm16 data ! i) = js_trunc (data ! i * 32768)"
    using assms(1) js_trunc_scaled_range [OF assms(2,3)]
    by (simp add: pcm16_def sint_ToInt16)
  with js_trunc_scaled_range [OF assms(2,3)] show ?thesis
    by (simp add: createBlob_def int16s_of_bytes_inverse)
qed

theorem createBlob_sample_truncated_witness:
  "(1::nat) < length [1 / 2, - 7 / 131072 :: real] \<and>
   - 1 \<le> [1 / 2, - 7 / 131072 :: real] ! 1 \<and> [1 / 2, - 7 / 131072 :: real] ! 1 < 1 \<and>
   sint (pcm16 [1 / 2, - 7 / 131072] ! 1) = - 1 \<and>
   js_trunc (- 7 / 131072 * 32768) = - 1"
  using createBlob_sample_truncated [of 1 "[1 / 2, - 7 / 131072]" "\<lambda>cs. []"]
  by (simp add: js_trunc_def)

text \<open>
  Claim C2 as the specification words it (round, then clamp) fails on two samples of
  the range: \<open>7 / 131072\<close>, where \<open>s * 32768 = 1.75\<close> is stored as 1 and rounds
  to 2, and \<open>1\<close>, where 32768 is stored as \<open>-32768\<close> and clamps to 32767.
\<close>

theorem createBlob_not_round_clamp:
  "sint (pcm16 [7 / 131072, 1] ! 0) = 1 \<and> spec_pcm16_sample (7 / 131072) = 2 \<and>
   sint (pcm16 [7 / 131072, 1] ! 1) = - 32768 \<and> spec_pcm16_sample 1 = 32767"
  by (simp add: pcm16_def ToInt16_def js_trunc_def spec_pcm16_sample_def round_def)

text \<open>
  The sample \<open>0.5\<close> survives encoding and decoding unchanged, and the encoding is
  monotonic below full scale (\<open>pcm16_mono\<close>).
\<close>

lemma half_round_trip:
  "decodeAudioData (bytes_of_int16s (pcm16 [1 / 2])) 24000 1 =
     Inr \<lparr> channels = [[1 / 2]], buf_length = 1, buf_sampleRate = 24000 \<rparr>"
  by (simp add: decodeAudioData_def pcm16_def ToInt16_def js_trunc_def)

text \<open>
  Claim C6 at the samples \<open>0.5 < 1\<close>: \<open>0.5\<close> is encoded as 16384, and \<open>1\<close> as
  \<open>-32768\<close>, since the product 32768 is one more than the greatest 16-bit value and
  the store wraps. The encoding is not monotonic on the closed range.
\<close>

theorem full_scale_sample_wraps:
  "(1 / 2 :: real) < 1 \<and>
   sint (pcm16 [1 / 2, 1] ! 0) = 16384 \<and> sint (pcm16 [1 / 2, 1] ! 1) = - 32768 \<and>
   \<not> sint (pcm16 [1 / 2, 1] ! 0) \<le> sint (pcm16 [1 / 2, 1] ! 1)"
  by (simp add: pcm16_def ToInt16_def js_trunc_def)

section \<open>Rounding to doubles\<close>

lemma rne_of_int: "rne (of_int n) = n"
  by (simp add: rne_def)

lemma rne_bounds: "\<lfloor>q\<rfloor> \<le> rne q" "rne q \<le> \<lfloor>q\<rfloor> + 1"
  by (simp_all add: rne_def Let_def)

lemma rne_mono:
  assumes "q \<le> q'"
  shows "rne q \<le> rne q'"
proof (cases "\<lfloor>q\<rfloor> = \<lfloor>q'\<rfloor>")
  case True
  with assms show ?thesis by (auto simp: rne_def Let_def)
next
  case False
  moreover from assms have "\<lfloor>q\<rfloor> \<le> \<lfloor>q'\<rfloor>" by (rule floor_mono)
  ultimately have "\<lfloor>q\<rfloor> + 1 \<le> \<lfloor>q'\<rfloor>" by simp
  with rne_bounds(2) [of q] rne_bounds(1) [of q'] show ?thesis by linarith
qed

lemma rne_ge: "of_int n \<le> q \<Longrightarrow> n \<le> rne q"
  using rne_mono [of "of_int n" q] by (simp add: rne_of_int)

lemma rne_le: "q \<le> of_int n \<Longrightarrow> rne q \<le> n"
  using rne_mono [of q "of_int n"] by (simp add: rne_of_int)

lemma halvings_spec: "1 \<le> x \<Longrightarrow> 2 ^ halvings x \<le> x \<and> x < 2 ^ Suc (halvings x)"
proof (induction x rule: halvings.induct)
  case (1 x)
  show ?case
  proof (cases "2 \<le> x")
    case True
    then have "1 \<le> x / 2" by simp
    with 1 True have "2 ^ halvings (x / 2) \<le> x / 2 \<and> x / 2 < 2 ^ Suc (halvings (x / 2))"
      by blast
    moreover from True have "halvings x = Suc (halvings (x / 2))"
      by (simp add: halvings.simps [of x])
    ultimately show ?thesis by simp
  next
    case False
    then have "halvings x = 0" by (simp add: halvings.simps [of x])
    with False 1 show ?thesis by simp
  qed
qed

lemma doublings_spec:
  "0 < x \<Longrightarrow> x < 1 \<Longrightarrow> 1 \<le> x * 2 ^ doublings x \<and> x * 2 ^ doublings x < 2"
proof (induction x rule: doublings.induct)
  case (1 x)
  then have step: "doublings x = Suc (doublings (2 * x))"
    by (simp add: doublings.simps [of x])
  show ?case
  proof (cases "2 * x < 1")
    case True
    with 1 have "1 \<le> 2 * x * 2 ^ doublings (2 * x) \<and> 2 * x * 2 ^ doublings (2 * x) < 2"
      by simp
    with step show ?thesis by (simp add: mult.commute mult.left_commute)
  next
    case False
    then have "doublings (2 * x) = 0" by (simp add: doublings.simps [of "2 * x"])
    with step False 1 show ?thesis by simp
  qed
qed

lemma binade_spec:
  assumes "0 < x"
  shows "2 powi binade x \<le> x" and "x < 2 powi (binade x + 1)"
proof -
  have "2 powi binade x \<le> x \<and> x < 2 powi (binade x + 1)"
  proof (cases "1 \<le> x")
    case True
    from halvings_spec [OF True] have "2 ^ halvings x \<le> x" "x < 2 * 2 ^ halvings x" by simp_all
    with True show ?thesis by (simp add: binade_def power_int_add)
  next
    case False
    with assms have "1 \<le> x * 2 ^ doublings x" "x * 2 ^ doublings x < 2"
      using doublings_spec [of x] by simp_all
    then have "1 / 2 ^ doublings x \<le> x" "x < 2 / 2 ^ doublings x"
      by (simp_all add: field_simps)
    with False show ?thesis
      by (simp add: binade_def power_int_diff power_int_minus_divide)
  qed
  then show "2 powi binade x \<le> x" and "x < 2 powi (binade x + 1)" by simp_all
qed

lemma pow2_increasing: "a \<le> b \<Longrightarrow> (2::real) powi a \<le> 2 powi b"
  by (rule power_int_increasing) simp_all

lemma binade_unique:
  assumes "0 < x" "2 powi e \<le> x" "x < 2 powi (e + 1)"
  shows "binade x = e"
proof (rule ccontr)
  assume "binade x \<noteq> e"
  then consider "binade x + 1 \<le> e" | "e + 1 \<le> binade x" by linarith
  then show False
  proof cases
    case 1
    then have "(2::real) powi (binade x + 1) \<le> 2 powi e" by (rule pow2_increasing)
    with binade_spec(2) [OF assms(1)] assms(2) show False by linarith
  next
    case 2
    then have "(2::real) powi (e + 1) \<le> 2 powi binade x" by (rule pow2_increasing)
    with binade_spec(1) [OF assms(1)] assms(3) show False by linarith
  qed
qed

lemma binade_mono:
  assumes "0 < x" "x \<le> y"
  shows "binade x \<le> binade y"
proof (rule ccontr)
  assume "\<not> binade x \<le> binade y"
  then have "binade y + 1 \<le> binade x" by simp
  then have "(2::real) powi (binade y + 1) \<le> 2 powi binade x" by (rule pow2_increasing)
  moreover from assms have "0 < y" by simp
  ultimately show False
    using binade_spec(1) [OF assms(1)] binade_spec(2) [OF \<open>0 < y\<close>] assms(2) by linarith
qed

lemma ulp_pos: "0 < ulp x"
  by (simp add: ulp_def)

lemma ulp_scale:
  "4503599627370496 * ulp x = 2 powi binade x"
  "9007199254740992 * ulp x = 2 powi (binade x + 1)"
  by (simp_all add: ulp_def power_int_diff power_int_add)

lemma to_double_pos: "0 < x \<Longrightarrow> to_double x = real_of_int (rne (x / ulp x)) * ulp x"
  by (simp add: to_double_def)

lemma to_double_pos_bounds:
  assumes "0 < x"
  shows "2 powi binade x \<le> to_double x" and "to_double x \<le> 2 powi (binade x + 1)"
proof -
  let ?m = "rne (x / ulp x)"
  have "4503599627370496 * ulp x \<le> x" "x \<le> 9007199254740992 * ulp x"
    using binade_spec [OF assms] by (simp_all only: ulp_scale)
  then have "4503599627370496 \<le> x / ulp x" "x / ulp x \<le> 9007199254740992"
    using ulp_pos [of x] by (simp_all add: field_simps)
  then have "4503599627370496 \<le> ?m" "?m \<le> 9007199254740992"
    using rne_ge [of 4503599627370496 "x / ulp x"] rne_le [of "x / ulp x" 9007199254740992]
    by simp_all
  then have "4503599627370496 \<le> real_of_int ?m" "real_of_int ?m \<le> 9007199254740992"
    by linarith+
  then have "4503599627370496 * ulp x \<le> real_of_int ?m * ulp x"
    "real_of_int ?m * ulp x \<le> 9007199254740992 * ulp x"
    using ulp_pos [of x] by (simp_all only: mult_le_cancel_right_pos)
  then show "2 powi binade x \<le> to_double x" and "to_double x \<le> 2 powi (binade x + 1)"
    using assms by (simp_all only: to_double_pos ulp_scale)
qed

lemma to_double_pos_pos:
  assumes "0 < x"
  shows "0 < to_double x"
proof -
  have "(0::real) < 2 powi binade x" by (rule zero_less_power_int) simp
  with to_double_pos_bounds(1) [OF assms] show ?thesis by linarith
qed

lemma to_double_mono_pos:
  assumes "0 < x" "x \<le> y"
  shows "to_double x \<le> to_double y"
proof (cases "binade x = binade y")
  case True
  from assms have y: "0 < y" by simp
  from True have u: "ulp y = ulp x" by (simp add: ulp_def)
  from assms(2) ulp_pos [of x] have "x / ulp x \<le> y / ulp x" by (simp add: divide_right_mono)
  then have "rne (x / ulp x) \<le> rne (y / ulp x)" by (rule rne_mono)
  then have "real_of_int (rne (x / ulp x)) * ulp x \<le> real_of_int (rne (y / ulp x)) * ulp x"
    using ulp_pos [of x] by simp
  with assms(1) y u show ?thesis by (simp add: to_double_pos)
next
  case False
  from assms have y: "0 < y" by simp
  from False binade_mono [OF assms] have "binade x + 1 \<le> binade y" by simp
  then have "(2::real) powi (binade x + 1) \<le> 2 powi binade y" by (rule pow2_increasing)
  with to_double_pos_bounds(2) [OF assms(1)] to_double_pos_bounds(1) [OF y]
  show ?thesis by linarith
qed

lemma to_double_zero: "to_double 0 = 0"
  by (simp add: to_double_def)

lemma to_double_minus: "to_double (- x) = - to_double x"
  by (simp add: to_double_def sgn_minus)

lemma to_double_nonneg: "0 \<le> x \<Longrightarrow> 0 \<le> to_double x"
  using to_double_pos_pos [of x] by (cases "x = 0") (simp_all add: to_double_zero less_eq_real_def)

text \<open>Rounding is monotonic, and a double rounds to itself.\<close>

lemma to_double_mono:
  assumes "x \<le> y"
  shows "to_double x \<le> to_double y"
proof -
  consider "0 < x" | "x = 0" | "x < 0" "0 \<le> y" | "x < 0" "y < 0" by linarith
  then show ?thesis
  proof cases
    case 1
    with assms show ?thesis by (simp add: to_double_mono_pos)
  next
    case 2
    with assms show ?thesis by (simp add: to_double_zero to_double_nonneg)
  next
    case 3
    then have "0 \<le> to_double (- x)" "0 \<le> to_double y" by (simp_all add: to_double_nonneg)
    then show ?thesis by (simp add: to_double_minus)
  next
    case 4
    with assms have "to_double (- y) \<le> to_double (- x)" by (intro to_double_mono_pos) simp_all
    then show ?thesis by (simp add: to_double_minus)
  qed
qed

lemma to_double_idem_pos:
  assumes "0 < x"
  shows "to_double (to_double x) = to_double x"
proof -
  define r where "r = to_double x"
  define m where "m = rne (x / ulp x)"
  have r: "r = real_of_int m * ulp x" using assms by (simp add: r_def m_def to_double_pos)
  have rpos: "0 < r" using assms by (simp add: r_def to_double_pos_pos)
  have lo: "2 powi binade x \<le> r" and hi: "r \<le> 2 powi (binade x + 1)"
    using to_double_pos_bounds [OF assms] by (simp_all add: r_def)
  have "to_double r = r"
  proof (cases "r < 2 powi (binade x + 1)")
    case True
    with rpos lo have "binade r = binade x" by (rule binade_unique)
    then have "ulp r = ulp x" by (simp add: ulp_def)
    with rpos r ulp_pos [of x] show ?thesis by (simp add: to_double_pos rne_of_int)
  next
    case False
    with hi have eq: "r = 2 powi (binade x + 1)" by simp
    have "r < 2 powi (binade x + 1 + 1)"
      unfolding eq by (rule power_int_strict_increasing) simp_all
    with rpos have b: "binade r = binade x + 1"
      by (intro binade_unique) (simp_all add: eq)
    have "4503599627370496 * ulp r = 2 powi binade r" by (rule ulp_scale)
    then have "4503599627370496 * ulp r = 2 powi (binade x + 1)" by (simp only: b)
    with eq have s: "r = 4503599627370496 * ulp r" by linarith
    then have "r / ulp r = real_of_int 4503599627370496"
      using ulp_pos [of r] by (simp add: field_simps)
    then have "rne (r / ulp r) = 4503599627370496" by (simp only: rne_of_int)
    with rpos s show ?thesis by (simp add: to_double_pos)
  qed
  then show ?thesis by (simp add: r_def)
qed

lemma to_double_idem: "to_double (to_double x) = to_double x"
proof -
  consider "0 < x" | "x = 0" | "x < 0" by linarith
  then show ?thesis
  proof cases
    case 1
    then show ?thesis by (rule to_double_idem_pos)
  next
    case 2
    then show ?thesis by (simp add: to_double_zero)
  next
    case 3
    then have "to_double (to_double (- x)) = to_double (- x)" by (intro to_double_idem_pos) simp
    then show ?thesis by (simp add: to_double_minus)
  qed
qed

text \<open>The duration of one frame at 24 kHz, as a double.\<close>

lemma to_double_frame: "to_double (1 / 24000) = 6148914691236517 / 147573952589676412928"
  by (simp add: to_double_def ulp_def binade_def rne_def Let_def halvings.simps doublings.simps)

section \<open>Playback scheduling\<close>

lemma duration_nonneg: "0 \<le> duration buf"
  by (simp add: duration_def to_double_nonneg)

lemma scheduled_append: "scheduled (es @ es') = scheduled es @ scheduled es'"
  by (induction es rule: scheduled.induct) simp_all

lemma no_overlap_snoc:
  "no_overlap (cs @ [c]) \<longleftrightarrow>
     no_overlap cs \<and> (cs = [] \<or> to_double (fst (last cs) + snd (last cs)) \<le> fst c)"
  by (induction cs rule: no_overlap.induct) auto

lemma enqueue_cursor:
  "nextStartTimeRef (enqueue t buf s) = to_double (max (nextStartTimeRef s) t + duration buf)"
  by (simp add: enqueue_def Let_def)

lemma enqueue_effects:
  "effects (enqueue t buf s) =
     effects s @ [SourceStart (nodesCreated s) (max (nextStartTimeRef s) t) (duration buf)]"
  by (simp add: enqueue_def Let_def)

lemma enqueue_new_scheduled:
  assumes "length (effects s0) \<le> length (effects s)"
  shows "scheduled (new_effects s0 (enqueue t buf s)) =
     scheduled (new_effects s0 s) @ [(max (nextStartTimeRef s) t, duration buf)]"
  using assms by (simp add: new_effects_def enqueue_effects scheduled_append)

text \<open>Adding a duration to a cursor that holds a double does not move it backwards.\<close>

lemma enqueue_cursor_mono:
  assumes "to_double (nextStartTimeRef s) = nextStartTimeRef s"
  shows "nextStartTimeRef s \<le> nextStartTimeRef (enqueue t buf s)"
proof -
  have "nextStartTimeRef s \<le> max (nextStartTimeRef s) t + duration buf"
    using duration_nonneg [of buf] by (simp add: max_def)
  then have "to_double (nextStartTimeRef s) \<le> to_double (max (nextStartTimeRef s) t + duration buf)"
    by (rule to_double_mono)
  with assms show ?thesis by (simp add: enqueue_cursor)
qed

lemma gapless_since_refl:
  "to_double (nextStartTimeRef s) = nextStartTimeRef s \<Longrightarrow> gapless_since s s"
  by (simp add: gapless_since_def new_effects_def)

lemma gapless_since_cong:
  assumes "effects s' = effects s" "nextStartTimeRef s' = nextStartTimeRef s"
  shows "gapless_since s0 s' = gapless_since s0 s"
  using assms by (simp add: gapless_since_def new_effects_def)

lemma enqueue_gapless:
  assumes "gapless_since s0 s"
  shows "gapless_since s0 (enqueue t buf s)"
proof -
  let ?cs = "scheduled (new_effects s0 s)"
  let ?start = "max (nextStartTimeRef s) t"
  let ?next = "to_double (?start + duration buf)"
  from assms have len: "length (effects s0) \<le> length (effects s)"
    and dbl: "to_double (nextStartTimeRef s) = nextStartTimeRef s"
    and no: "no_overlap ?cs"
    and ends: "list_all (\<lambda>c. to_double (fst c + snd c) \<le> nextStartTimeRef s) ?cs"
    by (simp_all add: gapless_since_def)
  have last_ok: "?cs = [] \<or> to_double (fst (last ?cs) + snd (last ?cs)) \<le> ?start"
  proof (cases "?cs = []")
    case True
    then show ?thesis by simp
  next
    case False
    then have "last ?cs \<in> set ?cs" by simp
    with ends have "to_double (fst (last ?cs) + snd (last ?cs)) \<le> nextStartTimeRef s"
      by (simp add: list_all_iff)
    then show ?thesis by (simp add: le_max_iff_disj)
  qed
  have up: "nextStartTimeRef s \<le> ?next"
    using enqueue_cursor_mono [OF dbl, of t buf] by (simp add: enqueue_cursor)
  have "list_all (\<lambda>c. to_double (fst c + snd c) \<le> ?next) ?cs"
    using ends up by (auto simp: list_all_iff)
  moreover have "to_double ?next = ?next" by (rule to_double_idem)
  ultimately show ?thesis
    using no last_ok len
    by (simp add: gapless_since_def enqueue_new_scheduled [OF len] enqueue_cursor
        no_overlap_snoc enqueue_effects)
qed

text \<open>
  The transcript part of a message leaves the scheduler alone, and the callback either
  enqueues one buffer after it or does not touch the scheduler at all.
\<close>

lemma transcribe_cursor:
  "nextStartTimeRef (transcribe now m s) = nextStartTimeRef s"
  "effects (transcribe now m s) = effects s"
  by (simp_all add: transcribe_def flush_turn_def Let_def)

lemma onmessage_enqueues:
  assumes "inline_audio m = Inr (Some b64)" and "b64 \<noteq> []"
    and "decode atob b64 = Inr bytes" and "decodeAudioData bytes 24000 1 = Inr buf"
  shows "onmessage atob now t m s = enqueue t buf (transcribe now m s)"
  using assms by (simp add: onmessage_def)

lemma rejected_cursor:
  "nextStartTimeRef (rejected e s) = nextStartTimeRef s"
  "effects (rejected e s) = effects s"
  by (simp_all add: rejected_def)

lemma onmessage_cases:
  "(\<exists>buf. onmessage atob now t m s = enqueue t buf (transcribe now m s)) \<or>
   (nextStartTimeRef (onmessage atob now t m s) = nextStartTimeRef s \<and>
    effects (onmessage atob now t m s) = effects s)"
proof -
  let ?s3 = "transcribe now m s"
  let ?r = "onmessage atob now t m s"
  have "(\<exists>buf. ?r = enqueue t buf ?s3) \<or> (\<exists>e. ?r = rejected e ?s3) \<or> ?r = ?s3"
  proof (cases "inline_audio m")
    case (Inl e)
    then have "?r = rejected e ?s3" by (simp add: onmessage_def)
    then show ?thesis by blast
  next
    case (Inr a)
    show ?thesis
    proof (cases a)
      case None
      with Inr have "?r = ?s3" by (simp add: onmessage_def)
      then show ?thesis by blast
    next
      case (Some b64)
      show ?thesis
      proof (cases "b64 = []")
        case True
        with Inr Some have "?r = ?s3" by (simp add: onmessage_def)
        then show ?thesis by blast
      next
        case False
        show ?thesis
        proof (cases "decode atob b64")
          case (Inl e)
          with Inr Some False have "?r = rejected e ?s3" by (simp add: onmessage_def)
          then show ?thesis by blast
        next
          case bytes: (Inr bytes)
          show ?thesis
          proof (cases "decodeAudioData bytes 24000 1")
            case (Inl e)
            with Inr Some False bytes have "?r = rejected e ?s3" by (simp add: onmessage_def)
            then show ?thesis by blast
          next
            case buf: (Inr buf)
            with Inr Some False bytes have "?r = enqueue t buf ?s3" by (simp add: onmessage_def)
            then show ?thesis by blast
          qed
        qed
      qed
    qed
  qed
  then consider buf where "?r = enqueue t buf ?s3" | e where "?r = rejected e ?s3" | "?r = ?s3"
    by blast
  then show ?thesis
  proof cases
    case 1
    then show ?thesis by blast
  next
    case 2
    then show ?thesis by (simp add: rejected_cursor transcribe_cursor)
  next
    case 3
    then show ?thesis by (simp add: transcribe_cursor)
  qed
qed

lemma onmessage_gapless:
  assumes "gapless_since s0 s"
  shows "gapless_since s0 (onmessage atob now t m s)"
proof -
  have "gapless_since s0 (transcribe now m s) = gapless_since s0 s"
    by (rule gapless_since_cong) (rule transcribe_cursor)+
  with assms have tr: "gapless_since s0 (transcribe now m s)" by simp
  from onmessage_cases [of atob now t m s] show ?thesis
  proof
    assume "\<exists>buf. onmessage atob now t m s = enqueue t buf (transcribe now m s)"
    then obtain buf where "onmessage atob now t m s = enqueue t buf (transcribe now m s)" ..
    with enqueue_gapless [OF tr] show ?thesis by simp
  next
    assume "nextStartTimeRef (onmessage atob now t m s) = nextStartTimeRef s \<and>
      effects (onmessage atob now t m s) = effects s"
    then have "gapless_since s0 (onmessage atob now t m s) = gapless_since s0 s"
      by (intro gapless_since_cong) simp_all
    with assms show ?thesis by simp
  qed
qed

lemma onmessage_cursor_mono:
  assumes "to_double (nextStartTimeRef s) = nextStartTimeRef s"
  shows "nextStartTimeRef s \<le> nextStartTimeRef (onmessage atob now t m s)"
proof -
  from onmessage_cases [of atob now t m s] show ?thesis
  proof
    assume "\<exists>buf. onmessage atob now t m s = enqueue t buf (transcribe now m s)"
    then obtain buf where e: "onmessage atob now t m s = enqueue t buf (transcribe now m s)" ..
    have "to_double (nextStartTimeRef (transcribe now m s)) = nextStartTimeRef (transcribe now m s)"
      using assms by (simp add: transcribe_cursor)
    from enqueue_cursor_mono [OF this, of t buf] show ?thesis
      by (simp add: e transcribe_cursor)
  next
    assume "nextStartTimeRef (onmessage atob now t m s) = nextStartTimeRef s \<and>
      effects (onmessage atob now t m s) = effects s"
    then show ?thesis by simp
  qed
qed

lemma onmessages_gapless:
  "gapless_since s0 s \<Longrightarrow> gapless_since s0 (onmessages atob ms s)"
  by (induction atob ms s rule: onmessages.induct) (simp_all add: onmessage_gapless)

lemma onmessages_cursor_mono:
  "gapless_since s0 s \<Longrightarrow> nextStartTimeRef s \<le> nextStartTimeRef (onmessages atob ms s)"
proof (induction atob ms s rule: onmessages.induct)
  case (1 atob s)
  then show ?case by simp
next
  case (2 atob now t m ms s)
  from 2(2) have "to_double (nextStartTimeRef s) = nextStartTimeRef s"
    by (simp add: gapless_since_def)
  then have "nextStartTimeRef s \<le> nextStartTimeRef (onmessage atob now t m s)"
    by (rule onmessage_cursor_mono)
  moreover from 2(2) have "gapless_since s0 (onmessage atob now t m s)"
    by (rule onmessage_gapless)
  ultimately show ?case using 2(1) by fastforce
qed

text \<open>
  Claim C1, as the code has it. Take a state whose cursor holds a double, any sequence
  \<open>ms\<close> of inbound messages handled by the callback from it, and a next message
  \<open>m\<close> whose inline audio decodes to the buffer \<open>buf\<close>, handled when the output clock
  reads \<open>t\<close>. The chunk is started at the later of the cursor and \<open>t\<close>; the cursor is
  then the sum of that start and the duration of the chunk, rounded to a double as
  \<open>+=\<close> does; the cursor has not moved backwards, over the earlier messages or over
  this one; and among the chunks scheduled since the first state, each one starts no
  earlier than the rounded sum of the start and the duration of the one before it.
\<close>

theorem playback_schedule:
  assumes "to_double (nextStartTimeRef s) = nextStartTimeRef s"
    and "inline_audio m = Inr (Some b64)" and "b64 \<noteq> []"
    and "decode atob b64 = Inr bytes" and "decodeAudioData bytes 24000 1 = Inr buf"
  shows "scheduled (new_effects s (onmessage atob now t m (onmessages atob ms s))) =
           scheduled (new_effects s (onmessages atob ms s)) @
             [(max (nextStartTimeRef (onmessages atob ms s)) t, duration buf)] \<and>
         nextStartTimeRef (onmessage atob now t m (onmessages atob ms s)) =
           to_double (max (nextStartTimeRef (onmessages atob ms s)) t + duration buf) \<and>
         nextStartTimeRef s \<le> nextStartTimeRef (onmessages atob ms s) \<and>
         nextStartTimeRef (onmessages atob ms s) \<le>
           nextStartTimeRef (onmessage atob now t m (onmessages atob ms s)) \<and>
         no_overlap (scheduled (new_effects s (onmessage atob now t m (onmessages atob ms s))))"
proof -
  let ?s = "onmessages atob ms s"
  have g0: "gapless_since s s" using assms(1) by (rule gapless_since_refl)
  then have g: "gapless_since s ?s" by (rule onmessages_gapless)
  then have g': "gapless_since s (onmessage atob now t m ?s)" by (rule onmessage_gapless)
  from g have dbl: "to_double (nextStartTimeRef ?s) = nextStartTimeRef ?s"
    and len: "length (effects s) \<le> length (effects (transcribe now m ?s))"
    by (simp_all add: gapless_since_def transcribe_cursor)
  have e: "onmessage atob now t m ?s = enqueue t buf (transcribe now m ?s)"
    using assms(2-5) by (rule onmessage_enqueues)
  have same: "new_effects s (transcribe now m ?s) = new_effects s ?s"
    by (simp add: new_effects_def transcribe_cursor)
  have "scheduled (new_effects s (onmessage atob now t m ?s)) =
          scheduled (new_effects s ?s) @ [(max (nextStartTimeRef ?s) t, duration buf)]"
    by (simp add: e enqueue_new_scheduled [OF len] same transcribe_cursor)
  moreover have "nextStartTimeRef (onmessage atob now t m ?s) =
          to_double (max (nextStartTimeRef ?s) t + duration buf)"
    by (simp add: e enqueue_cursor transcribe_cursor)
  moreover have "nextStartTimeRef s \<le> nextStartTimeRef ?s"
    using g0 by (rule onmessages_cursor_mono)
  moreover have "nextStartTimeRef ?s \<le> nextStartTimeRef (onmessage atob now t m ?s)"
    using dbl by (rule onmessage_cursor_mono)
  moreover have "no_overlap (scheduled (new_effects s (onmessage atob now t m ?s)))"
    using g' by (simp add: gapless_since_def)
  ultimately show ?thesis by blast
qed

theorem playback_schedule_witness:
  "to_double (nextStartTimeRef initial_state) = nextStartTimeRef initial_state \<and>
   inline_audio (Some \<lparr> inputTranscription = None, outputTranscription = None, turnComplete = False,
               modelTurn = Some (Some [Some ''AAA='']) \<rparr>) = Inr (Some ''AAA='') \<and>
   decode (\<lambda>b. if b = ''AAA='' then Inr [0, 0] else Inl InvalidCharacterError) ''AAA='' = Inr [0, 0] \<and>
   decodeAudioData [0, 0] 24000 1 = Inr \<lparr> channels = [[0]], buf_length = 1, buf_sampleRate = 24000 \<rparr> \<and>
   scheduled (new_effects initial_state
     (onmessage (\<lambda>b. if b = ''AAA='' then Inr [0, 0] else Inl InvalidCharacterError) ([], []) 5
        (Some \<lparr> inputTranscription = None, outputTranscription = None, turnComplete = False,
               modelTurn = Some (Some [Some ''AAA='']) \<rparr>)
        (onmessages (\<lambda>b. if b = ''AAA='' then Inr [0, 0] else Inl InvalidCharacterError)
     [(([], []), 0, Some \<lparr> inputTranscription = None, outputTranscription = None, turnComplete = False,
               modelTurn = Some (Some [Some ''AAA='']) \<rparr>),
      (([], []), 0, Some \<lparr> inputTranscription = None, outputTranscription = None, turnComplete = False,
               modelTurn = Some (Some [Some ''AAA='']) \<rparr>)]
     initial_state))) =
     [(0, 6148914691236517 / 147573952589676412928), (6148914691236517 / 147573952589676412928, 6148914691236517 / 147573952589676412928), (5, 6148914691236517 / 147573952589676412928)] \<and>
   no_overlap [(0, 6148914691236517 / 147573952589676412928), (6148914691236517 / 147573952589676412928, 6148914691236517 / 147573952589676412928), (5 :: real, 6148914691236517 / 147573952589676412928 :: real)]"
proof -
  have c: "to_double (nextStartTimeRef initial_state) = nextStartTimeRef initial_state"
    by (simp add: initial_state_def to_double_def)
  have a: "inline_audio (Some \<lparr> inputTranscription = None, outputTranscription = None, turnComplete = False,
               modelTurn = Some (Some [Some ''AAA='']) \<rparr>) = Inr (Some ''AAA='')"
    by (simp add: inline_audio_def)
  have n: "''AAA='' \<noteq> []" by simp
  have b: "decode (\<lambda>b. if b = ''AAA='' then Inr [0, 0] else Inl InvalidCharacterError) ''AAA='' = Inr [0, 0]"
    by (simp add: decode_def)
  have f: "decodeAudioData [0, 0] 24000 1 = Inr \<lparr> channels = [[0]], buf_length = 1, buf_sampleRate = 24000 \<rparr>"
    by (simp add: decodeAudioData_def)
  show ?thesis
    using c a b f playback_schedule [OF c a n b f, of "([], [])" 5
     "[(([], []), 0, Some \<lparr> inputTranscription = None, outputTranscription = None, turnComplete = False,
               modelTurn = Some (Some [Some ''AAA='']) \<rparr>),
      (([], []), 0, Some \<lparr> inputTranscription = None, outputTranscription = None, turnComplete = False,
               modelTurn = Some (Some [Some ''AAA='']) \<rparr>)]"]
    by (simp add: onmessage_def transcribe_def is_turnComplete_def inline_audio_def
      append_input_def append_output_def decode_def decodeAudioData_def duration_def
      enqueue_def Let_def to_double_def ulp_def binade_def rne_def halvings.simps
      doublings.simps initial_state_def new_effects_def)
qed

text \<open>
  Claim C1 with the sum of start and duration taken exactly fails on five one-frame
  chunks that arrive while the output clock reads 0: the cursor after the fourth is
  rounded down, so the fifth chunk starts before the exact end of the fourth.
\<close>

theorem exact_sum_overlap:
  "scheduled (new_effects initial_state (onmessages (\<lambda>b. if b = ''AAA='' then Inr [0, 0] else Inl InvalidCharacterError)
     [(([], []), 0, Some \<lparr> inputTranscription = None, outputTranscription = None, turnComplete = False,
               modelTurn = Some (Some [Some ''AAA='']) \<rparr>),
      (([], []), 0, Some \<lparr> inputTranscription = None, outputTranscription = None, turnComplete = False,
               modelTurn = Some (Some [Some ''AAA='']) \<rparr>),
      (([], []), 0, Some \<lparr> inputTranscription = None, outputTranscription = None, turnComplete = False,
               modelTurn = Some (Some [Some ''AAA='']) \<rparr>),
      (([], []), 0, Some \<lparr> inputTranscription = None, outputTranscription = None, turnComplete = False,
               modelTurn = Some (Some [Some ''AAA='']) \<rparr>),
      (([], []), 0, Some \<lparr> inputTranscription = None, outputTranscription = None, turnComplete = False,
               modelTurn = Some (Some [Some ''AAA='']) \<rparr>)]
     initial_state)) =
     [(0, 6148914691236517 / 147573952589676412928), (6148914691236517 / 147573952589676412928, 6148914691236517 / 147573952589676412928), (6148914691236517 / 73786976294838206464, 6148914691236517 / 147573952589676412928), (1152921504606847 / 9223372036854775808, 6148914691236517 / 147573952589676412928), (6148914691236517 / 36893488147419103232, 6148914691236517 / 147573952589676412928)] \<and>
   \<not> spec_no_overlap
     [(0, 6148914691236517 / 147573952589676412928), (6148914691236517 / 147573952589676412928, 6148914691236517 / 147573952589676412928), (6148914691236517 / 73786976294838206464, 6148914691236517 / 147573952589676412928), (1152921504606847 / 9223372036854775808, 6148914691236517 / 147573952589676412928), (6148914691236517 / 36893488147419103232, 6148914691236517 / 147573952589676412928 :: real)] \<and>
   (6148914691236517 / 36893488147419103232 :: real) < 1152921504606847 / 9223372036854775808 + 6148914691236517 / 147573952589676412928"
  by (simp add: onmessage_def transcribe_def is_turnComplete_def inline_audio_def
      append_input_def append_output_def decode_def decodeAudioData_def duration_def enqueue_def Let_def
      to_double_def ulp_def binade_def rne_def halvings.simps doublings.simps
      initial_state_def new_effects_def)

section \<open>Transcript assembly\<close>

lemma enqueue_keeps:
  "messages (enqueue t buf s) = messages s"
  "currentTranscriptionRef (enqueue t buf s) = currentTranscriptionRef s"
  by (simp_all add: enqueue_def Let_def)

lemma rejected_keeps:
  "messages (rejected e s) = messages s"
  "currentTranscriptionRef (rejected e s) = currentTranscriptionRef s"
  by (simp_all add: rejected_def)

lemma onmessage_messages:
  "messages (onmessage atob now ct m s) = messages (transcribe now m s)"
  by (simp add: onmessage_def Let_def enqueue_keeps rejected_keeps
      split: sum.splits option.splits)

lemma onmessage_transcription:
  "currentTranscriptionRef (onmessage atob now ct m s) =
     currentTranscriptionRef (transcribe now m s)"
  by (simp add: onmessage_def Let_def enqueue_keeps rejected_keeps
      split: sum.splits option.splits)

text \<open>
  Claim C4. On a message that carries the turn-complete signal, with \<open>t\<close> the two
  buffers as they stand once the deltas of that message are appended: if either buffer
  of \<open>t\<close> is non-empty, exactly two messages are added to the log, the user's with the
  input buffer and then the model's with the output buffer; if both are empty, nothing
  is added; in both cases the two buffers are empty afterwards.
\<close>

theorem turn_complete_flush:
  assumes "is_turnComplete m"
  shows "messages (onmessage atob now ct m s) =
           messages s @
           (let t = append_output m (append_input m (currentTranscriptionRef s)) in
            if tr_input t \<noteq> [] \<or> tr_output t \<noteq> [] then
              [\<lparr> msg_role = user, msg_text = tr_input t, msg_timestamp = fst now \<rparr>,
               \<lparr> msg_role = model, msg_text = tr_output t, msg_timestamp = snd now \<rparr>]
            else []) \<and>
         currentTranscriptionRef (onmessage atob now ct m s) = \<lparr> tr_input = [], tr_output = [] \<rparr>"
  using assms
  by (simp add: onmessage_messages onmessage_transcription transcribe_def flush_turn_def Let_def)

theorem turn_complete_flush_witness:
  "is_turnComplete (Some \<lparr> inputTranscription = None, outputTranscription = None,
                           turnComplete = True, modelTurn = None \<rparr>) \<and>
   messages
     (onmessage (\<lambda>b. Inl InvalidCharacterError) (''10:00:01'', ''10:00:02'') 0
        (Some \<lparr> inputTranscription = None, outputTranscription = None,
                turnComplete = True, modelTurn = None \<rparr>)
     (onmessage (\<lambda>b. Inl InvalidCharacterError) (''10:00:00'', ''10:00:00'') 0
        (Some \<lparr> inputTranscription = None, outputTranscription = Some (Some ''Hi!''),
                turnComplete = False, modelTurn = None \<rparr>)
     (onmessage (\<lambda>b. Inl InvalidCharacterError) (''10:00:00'', ''10:00:00'') 0
        (Some \<lparr> inputTranscription = Some (Some ''world''), outputTranscription = None,
                turnComplete = False, modelTurn = None \<rparr>)
     (onmessage (\<lambda>b. Inl InvalidCharacterError) (''10:00:00'', ''10:00:00'') 0
        (Some \<lparr> inputTranscription = Some (Some ''Hello ''), outputTranscription = None,
                turnComplete = False, modelTurn = None \<rparr>)
        initial_state)))) =
     [\<lparr> msg_role = user, msg_text = ''Hello world'', msg_timestamp = ''10:00:01'' \<rparr>,
      \<lparr> msg_role = model, msg_text = ''Hi!'', msg_timestamp = ''10:00:02'' \<rparr>]"
  using turn_complete_flush [of
    "Some \<lparr> inputTranscription = None, outputTranscription = None,
            turnComplete = True, modelTurn = None \<rparr>"
    "\<lambda>b. Inl InvalidCharacterError" "(''10:00:01'', ''10:00:02'')" 0
    "onmessage (\<lambda>b. Inl InvalidCharacterError) (''10:00:00'', ''10:00:00'') 0
        (Some \<lparr> inputTranscription = None, outputTranscription = Some (Some ''Hi!''),
                turnComplete = False, modelTurn = None \<rparr>)
     (onmessage (\<lambda>b. Inl InvalidCharacterError) (''10:00:00'', ''10:00:00'') 0
        (Some \<lparr> inputTranscription = Some (Some ''world''), outputTranscription = None,
                turnComplete = False, modelTurn = None \<rparr>)
     (onmessage (\<lambda>b. Inl InvalidCharacterError) (''10:00:00'', ''10:00:00'') 0
        (Some \<lparr> inputTranscription = Some (Some ''Hello ''), outputTranscription = None,
                turnComplete = False, modelTurn = None \<rparr>)
        initial_state))"]
  by (simp add: onmessage_def transcribe_def is_turnComplete_def inline_audio_def append_input_def
      append_output_def js_string_def initial_state_def Let_def)

section \<open>Session teardown and start\<close>

lemma close_if_present_cases:
  "close_if_present None = (None, [], [])"
  "close_if_present (Some c) =
     (Some (c\<lparr>ctx_closed := True\<rparr>), [ContextClose (ctx_sampleRate c)],
      if ctx_closed c then [InvalidStateError] else [])"
  by (cases c; simp add: close_if_present_def AudioContext_close_def)+

lemma close_if_present_released: "\<not> allocated (fst (close_if_present r))"
  by (cases r) (simp_all add: close_if_present_cases allocated_def)

lemma close_if_present_teardown: "list_all is_teardown (fst (snd (close_if_present r)))"
  by (cases r) (simp_all add: close_if_present_cases)

lemma stopLiveSession_fields:
  "liveSessionRef (stopLiveSession s) = None"
  "activeSourcesRef (stopLiveSession s) = []"
  "isLive (stopLiveSession s) = False"
  "audioContextInRef (stopLiveSession s) = fst (close_if_present (audioContextInRef s))"
  "audioContextOutRef (stopLiveSession s) = fst (close_if_present (audioContextOutRef s))"
  "messages (stopLiveSession s) = messages s"
  "currentTranscriptionRef (stopLiveSession s) = currentTranscriptionRef s"
  "loading (stopLiveSession s) = loading s"
  "nextStartTimeRef (stopLiveSession s) = nextStartTimeRef s"
  by (simp_all add: stopLiveSession_def Let_def split: option.splits prod.splits)

lemma stopLiveSession_effects:
  "effects (stopLiveSession s) =
     effects s @
     (case liveSessionRef s of None \<Rightarrow> [] | Some sess \<Rightarrow> [SessionClose sess]) @
     map (\<lambda>n. SourceStop (src_id n)) (activeSourcesRef s) @
     fst (snd (close_if_present (audioContextInRef s))) @
     fst (snd (close_if_present (audioContextOutRef s)))"
  by (simp add: stopLiveSession_def Let_def split: option.splits prod.splits)

lemma stopLiveSession_unhandled:
  "unhandled (stopLiveSession s) =
     unhandled s @
     snd (snd (close_if_present (audioContextInRef s))) @
     snd (snd (close_if_present (audioContextOutRef s)))"
  by (simp add: stopLiveSession_def Let_def split: option.splits prod.splits)

lemma stopLiveSession_idle: "idle (stopLiveSession s)"
  by (simp add: idle_def stopLiveSession_fields close_if_present_released)

lemma stopLiveSession_initial: "stopLiveSession initial_state = initial_state"
  by (simp add: stopLiveSession_def initial_state_def close_if_present_def)

lemma stop_new_effects_teardown: "list_all is_teardown (new_effects s (stopLiveSession s))"
  using close_if_present_teardown [of "audioContextInRef s"]
    close_if_present_teardown [of "audioContextOutRef s"]
  by (auto simp: new_effects_def stopLiveSession_effects list_all_iff split: option.splits)

text \<open>
  Claim C3, at a session that was started and opened, then stopped twice in a row.
  The first stop reports nothing. The second finds both context refs still pointing at
  the contexts the first one closed (the refs are tested but never reset, unlike
  \<open>liveSessionRef\<close>), closes them again, and each \<open>close()\<close> is rejected with
  \<open>InvalidStateError\<close>. Nothing is thrown at the call, and the state is idle after
  either call (\<open>stopLiveSession_idle\<close>); stopping a session that was never started
  changes nothing (\<open>stopLiveSession_initial\<close>).
\<close>

theorem second_stop_rejects:
  "unhandled (onopen (startLiveSession (Inr ()) (Inr 7) initial_state)) = [] \<and>
   unhandled (stopLiveSession (onopen (startLiveSession (Inr ()) (Inr 7) initial_state))) = [] \<and>
   unhandled (stopLiveSession (stopLiveSession (onopen (startLiveSession (Inr ()) (Inr 7) initial_state))))
     = [InvalidStateError, InvalidStateError]"
  by (simp add: stopLiveSession_unhandled stopLiveSession_fields close_if_present_cases
      onopen_def startLiveSession_def initial_state_def)

text \<open>
  Claim C8. The handlers of a remote error and of a remote close are the teardown
  itself: each gives the state that \<open>stopLiveSession\<close> gives, idle and with no
  playback handle left, and the only calls either makes are the teardown's (closing the
  session, stopping sources, closing contexts): no connection is opened and the
  microphone is not requested again.
\<close>

theorem remote_events_stop:
  "onerror s = stopLiveSession s \<and> onclose s = stopLiveSession s \<and>
   idle (onerror s) \<and> idle (onclose s) \<and>
   activeSourcesRef (onerror s) = [] \<and> activeSourcesRef (onclose s) = [] \<and>
   list_all is_teardown (new_effects s (onerror s)) \<and>
   list_all is_teardown (new_effects s (onclose s)) \<and>
   Connect t \<notin> set (new_effects s (onerror s)) \<and>
   Connect t \<notin> set (new_effects s (onclose s)) \<and>
   GetUserMedia \<notin> set (new_effects s (onerror s)) \<and>
   GetUserMedia \<notin> set (new_effects s (onclose s))"
proof -
  have t: "list_all is_teardown (new_effects s (stopLiveSession s))"
    by (rule stop_new_effects_teardown)
  then have "Connect t \<notin> set (new_effects s (stopLiveSession s))"
    and "GetUserMedia \<notin> set (new_effects s (stopLiveSession s))"
    by (auto simp: list_all_iff)
  with t show ?thesis
    by (simp add: onerror_def onclose_def stopLiveSession_idle stopLiveSession_fields)
qed

theorem remote_events_stop_witness:
  "onerror (onopen (startLiveSession (Inr ()) (Inr 7) initial_state)) =
     stopLiveSession (onopen (startLiveSession (Inr ()) (Inr 7) initial_state)) \<and>
   new_effects (onopen (startLiveSession (Inr ()) (Inr 7) initial_state))
     (onclose (onopen (startLiveSession (Inr ()) (Inr 7) initial_state))) =
     [SessionClose 7, ContextClose 16000, ContextClose 24000] \<and>
   idle (onclose (onopen (startLiveSession (Inr ()) (Inr 7) initial_state)))"
  using remote_events_stop [of "onopen (startLiveSession (Inr ()) (Inr 7) initial_state)" khalid]
  by (simp add: new_effects_def onclose_def stopLiveSession_effects close_if_present_cases
      onopen_def startLiveSession_def initial_state_def)

text \<open>
  Claim C9. When \<open>getUserMedia\<close> fails (the permission is denied), the start only
  requests the microphone and raises the alert: the state is the one before the call
  with \<open>loading\<close> cleared. No context is created, no connection is opened or held,
  \<open>isLive\<close> is unchanged, and an idle state stays idle.
\<close>

theorem start_denied:
  "startLiveSession (Inl e) conn s =
     s\<lparr>loading := False,
       effects := effects s @ [GetUserMedia, Alert ''Microphone access is required for voice sessions.'']\<rparr> \<and>
   (idle s \<longrightarrow> idle (startLiveSession (Inl e) conn s)) \<and>
   \<not> loading (startLiveSession (Inl e) conn s) \<and>
   audioContextInRef (startLiveSession (Inl e) conn s) = audioContextInRef s \<and>
   audioContextOutRef (startLiveSession (Inl e) conn s) = audioContextOutRef s \<and>
   liveSessionRef (startLiveSession (Inl e) conn s) = liveSessionRef s \<and>
   isLive (startLiveSession (Inl e) conn s) = isLive s"
  by (simp add: startLiveSession_def start_failed_def idle_def)

theorem start_denied_witness:
  "idle initial_state \<and>
   idle (startLiveSession (Inl NotAllowedError) (Inr 7) initial_state) \<and>
   \<not> loading (startLiveSession (Inl NotAllowedError) (Inr 7) initial_state) \<and>
   effects (startLiveSession (Inl NotAllowedError) (Inr 7) initial_state) =
     [GetUserMedia, Alert ''Microphone access is required for voice sessions.''] \<and>
   unhandled (startLiveSession (Inl NotAllowedError) (Inr 7) initial_state) = []"
proof -
  have i: "idle initial_state"
    by (simp add: idle_def initial_state_def allocated_def)
  show ?thesis
    using i start_denied [of NotAllowedError "Inr 7" initial_state]
    by (simp add: initial_state_def idle_def allocated_def)
qed

text \<open>
  Claim C7, at a session that received the input delta \<open>Hello \<close> and was stopped
  before the turn completed. The stop emits no message but leaves the text in the
  buffer (\<open>stopLiveSession\<close> does not touch \<open>currentTranscriptionRef\<close>, and
  \<open>startLiveSession\<close> does not reset it either). In the next session the first
  completed turn, whose only delta is \<open>Hi\<close>, is logged as \<open>Hello Hi\<close>.
\<close>

theorem stop_keeps_unflushed_text:
  "currentTranscriptionRef
     (stopLiveSession
       (onmessage (\<lambda>b. Inl InvalidCharacterError) (''10:00:00'', ''10:00:00'') 0
          (Some \<lparr> inputTranscription = Some (Some ''Hello ''), outputTranscription = None,
                  turnComplete = False, modelTurn = None \<rparr>)
          (onopen (startLiveSession (Inr ()) (Inr 7) initial_state))))
     = \<lparr> tr_input = ''Hello '', tr_output = [] \<rparr> \<and>
   messages
     (onmessage (\<lambda>b. Inl InvalidCharacterError) (''10:05:00'', ''10:05:00'') 0
        (Some \<lparr> inputTranscription = Some (Some ''Hi''), outputTranscription = None,
                turnComplete = True, modelTurn = None \<rparr>)
        (onopen (startLiveSession (Inr ()) (Inr 8)
          (stopLiveSession
            (onmessage (\<lambda>b. Inl InvalidCharacterError) (''10:00:00'', ''10:00:00'') 0
               (Some \<lparr> inputTranscription = Some (Some ''Hello ''), outputTranscription = None,
                       turnComplete = False, modelTurn = None \<rparr>)
               (onopen (startLiveSession (Inr ()) (Inr 7) initial_state)))))))
     = [\<lparr> msg_role = user, msg_text = ''Hello Hi'', msg_timestamp = ''10:05:00'' \<rparr>,
        \<lparr> msg_role = model, msg_text = [], msg_timestamp = ''10:05:00'' \<rparr>]"
  by (simp add: onmessage_def transcribe_def is_turnComplete_def inline_audio_def append_input_def
      append_output_def js_string_def flush_turn_def initial_state_def Let_def
      stopLiveSession_def close_if_present_def AudioContext_close_def
      startLiveSession_def onopen_def)

section \<open>Pronunciation scoring\<close>

lemma try_catch_total: "try_catch body (\<lambda>e. Inr d) \<noteq> Inl e'"
  by (cases body) (simp_all add: try_catch_def)

text \<open>
  Claim C5. For every input text, every behaviour of the request and every behaviour
  of \<open>JSON.parse\<close>, \<open>getPronunciationScore\<close> returns a value and raises nothing. When
  the request fails, or when the response does not parse, the value is the fallback:
  score 0 with a feedback list of one non-empty placeholder string. When both succeed
  the parsed value is returned.
\<close>

theorem getPronunciationScore_fails_closed:
  "(\<exists>v. getPronunciationScore generateContent JSON_parse text = Inr v) \<and>
   (generateContent (pronunciation_request text) = Inl e \<longrightarrow>
      getPronunciationScore generateContent JSON_parse text = Inr pronunciation_fallback) \<and>
   (generateContent (pronunciation_request text) = Inr r \<and> JSON_parse (js_string r) = Inl e \<longrightarrow>
      getPronunciationScore generateContent JSON_parse text = Inr pronunciation_fallback) \<and>
   (generateContent (pronunciation_request text) = Inr r \<and> JSON_parse (js_string r) = Inr v' \<longrightarrow>
      getPronunciationScore generateContent JSON_parse text = Inr v') \<and>
   pronunciation_fallback =
     JObject [(''score'', JNumber 0),
              (''feedback'', JArray [JString ''Unable to analyze at this moment.''])] \<and>
   ''Unable to analyze at this moment.'' \<noteq> []"
  by (auto simp: getPronunciationScore_def try_catch_def pronunciation_fallback_def
      split: sum.splits)

theorem getPronunciationScore_fails_closed_witness:
  "getPronunciationScore (\<lambda>req. Inl TransportError) (\<lambda>t. Inl SyntaxError) ''hello''
     = Inr pronunciation_fallback \<and>
   getPronunciationScore (\<lambda>req. Inr None) (\<lambda>t. if t = ''undefined'' then Inl SyntaxError else Inr JNull) ''hello''
     = Inr pronunciation_fallback \<and>
   getPronunciationScore (\<lambda>req. Inr (Some ''7'')) (\<lambda>t. if t = ''7'' then Inr (JNumber 7) else Inl SyntaxError) ''hello''
     = Inr (JNumber 7)"
  using getPronunciationScore_fails_closed
     [of "\<lambda>req. Inl TransportError" "\<lambda>t. Inl SyntaxError" "''hello''" TransportError None JNull]
    getPronunciationScore_fails_closed
     [of "\<lambda>req. Inr None" "\<lambda>t. if t = ''undefined'' then Inl SyntaxError else Inr JNull" "''hello''" SyntaxError None JNull]
    getPronunciationScore_fails_closed
     [of "\<lambda>req. Inr (Some ''7'')" "\<lambda>t. if t = ''7'' then Inr (JNumber 7) else Inl SyntaxError" "''hello''" SyntaxError "Some ''7''" "JNumber 7"]
  by (simp add: js_string_def)

section \<open>Persisted progress\<close>

lemma synced_with_synced: "synced (with_synced h) \<longleftrightarrow> st_synced h \<noteq> Some False"
  by (cases "st_synced h") (simp_all add: with_synced_def)

lemma filter_unsynced:
  "filter (\<lambda>h. \<not> synced h) (map with_synced hs) =
     map with_synced (filter (\<lambda>h. st_synced h = Some False) hs)"
  by (induction hs) (simp_all add: synced_with_synced)

text \<open>
  Claim C10. When the stored blob is present, parses and has a history, the loaded
  history is the stored one with every item that lacks \<open>synced\<close> set to synced; an
  item is unsynced after loading exactly when it was stored with \<open>synced = false\<close>,
  so those are the items \<open>unsyncedCount\<close> counts. When the key is absent the load
  raises nothing, keeps the progress (at startup the initial progress: no attempts,
  day 1, no scores, no history) and shows the first-run guide.
\<close>

theorem load_progress_normalises:
  "(saved = Some txt \<and> txt \<noteq> [] \<and> JSON_parse txt = Inr parsed \<and> st_history parsed = Some hs \<longrightarrow>
      (\<exists>s'. load_progress JSON_parse saved s = Inr s' \<and>
            history (progress s') = map with_synced hs \<and>
            (\<forall>i < length hs.
               (st_synced (hs ! i) = None \<longrightarrow> synced (history (progress s') ! i)) \<and>
               (synced (history (progress s') ! i) \<longleftrightarrow> st_synced (hs ! i) \<noteq> Some False)) \<and>
            unsyncedCount s' = length (filter (\<lambda>h. st_synced h = Some False) hs) \<and>
            showGuide s' = showGuide s)) \<and>
   load_progress JSON_parse None s = Inr (s\<lparr>showGuide := True\<rparr>) \<and>
   load_progress JSON_parse None initial_state =
     Inr (initial_state\<lparr>showGuide := True\<rparr>) \<and>
   progress (initial_state\<lparr>showGuide := True\<rparr>) =
     \<lparr> totalAttempts = 0, currentDay = 1, scores = [], history = [] \<rparr>"
  by (auto simp: load_progress_def unsyncedCount_def synced_with_synced filter_unsynced
      initial_state_def initial_progress_def)

theorem load_progress_normalises_witness:
  "load_progress
     (\<lambda>t. Inr \<lparr> st_totalAttempts = 3, st_currentDay = 2, st_scores = [7],
                 st_history = Some
                   [\<lparr> st_mode = CHAT, st_score = None, st_timestamp = ''a'', st_synced = None \<rparr>,
                    \<lparr> st_mode = PRONUNCIATION, st_score = Some 7, st_timestamp = ''b'',
                      st_synced = Some False \<rparr>,
                    \<lparr> st_mode = CHAT, st_score = None, st_timestamp = ''c'',
                      st_synced = Some True \<rparr>] \<rparr>)
     (Some ''saved'') initial_state =
   Inr (initial_state\<lparr>progress :=
     \<lparr> totalAttempts = 3, currentDay = 2, scores = [7],
       history =
         [\<lparr> h_mode = CHAT, h_score = None, h_timestamp = ''a'', synced = True \<rparr>,
          \<lparr> h_mode = PRONUNCIATION, h_score = Some 7, h_timestamp = ''b'', synced = False \<rparr>,
          \<lparr> h_mode = CHAT, h_score = None, h_timestamp = ''c'', synced = True \<rparr>] \<rparr>\<rparr>) \<and>
   unsyncedCount (initial_state\<lparr>progress :=
     \<lparr> totalAttempts = 3, currentDay = 2, scores = [7],
       history =
         [\<lparr> h_mode = CHAT, h_score = None, h_timestamp = ''a'', synced = True \<rparr>,
          \<lparr> h_mode = PRONUNCIATION, h_score = Some 7, h_timestamp = ''b'', synced = False \<rparr>,
          \<lparr> h_mode = CHAT, h_score = None, h_timestamp = ''c'', synced = True \<rparr>] \<rparr>\<rparr>) = 1"
  using load_progress_normalises
    [of "Some ''saved''" "''saved''"
      "\<lambda>t. Inr \<lparr> st_totalAttempts = 3, st_currentDay = 2, st_scores = [7],
                 st_history = Some
                   [\<lparr> st_mode = CHAT, st_score = None, st_timestamp = ''a'', st_synced = None \<rparr>,
                    \<lparr> st_mode = PRONUNCIATION, st_score = Some 7, st_timestamp = ''b'',
                      st_synced = Some False \<rparr>,
                    \<lparr> st_mode = CHAT, st_score = None, st_timestamp = ''c'',
                      st_synced = Some True \<rparr>] \<rparr>"
      "\<lparr> st_totalAttempts = 3, st_currentDay = 2, st_scores = [7],
                 st_history = Some
                   [\<lparr> st_mode = CHAT, st_score = None, st_timestamp = ''a'', st_synced = None \<rparr>,
                    \<lparr> st_mode = PRONUNCIATION, st_score = Some 7, st_timestamp = ''b'',
                      st_synced = Some False \<rparr>,
                    \<lparr> st_mode = CHAT, st_score = None, st_timestamp = ''c'',
                      st_synced = Some True \<rparr>] \<rparr>"
      "[\<lparr> st_mode = CHAT, st_score = None, st_timestamp = ''a'', st_synced = None \<rparr>,
                    \<lparr> st_mode = PRONUNCIATION, st_score = Some 7, st_timestamp = ''b'',
                      st_synced = Some False \<rparr>,
                    \<lparr> st_mode = CHAT, st_score = None, st_timestamp = ''c'',
                      st_synced = Some True \<rparr>]"
      initial_state]
  by (simp add: load_progress_def with_synced_def unsyncedCount_def)

end
